theory Spec2Isabelle
  imports
    Main
    "HOL-Library.Word"
    "HOL-Library.AList"
    "HOL-Library.Multiset"
    "HOL-Library.Char_ord"
    "HOL-Library.List_Lexorder"
begin

unbundle bit_operations_syntax

section \<open>Frames and fingerprints\<close>

text \<open>
  A frame is a Go \<^verbatim>\<open>[]byte\<close>. The deduplication key is
  \<^verbatim>\<open>string(sha256.Sum256(data)[:])\<close>. \<^verbatim>\<open>crypto/sha256\<close> is the Go standard library; every
  function below that hashes takes the digest function as its first argument \<open>hash\<close>, so
  each result holds for SHA-256 as for any other function from frames to keys.
\<close>

type_synonym byte = "8 word"
type_synonym frame = "byte list"
type_synonym u64 = "64 word"

section \<open>The LRU cache behind the deduplication store\<close>

text \<open>
  \<^verbatim>\<open>lru.Cache[string, bool]\<close> of \<^verbatim>\<open>github.com/hashicorp/golang-lru/v2\<close> (v2.0.7 in go.mod), the
  three operations the relay calls. The cache keeps its keys in an eviction list, most recent
  first; the stored value is always \<^verbatim>\<open>true\<close> and never read, so only the keys are kept.
  \<^item> \<^verbatim>\<open>New(size)\<close> fails with "must provide a positive size" when \<^verbatim>\<open>size <= 0\<close>;
  \<^item> \<^verbatim>\<open>Contains(key)\<close> looks the key up "without updating the recent-ness";
  \<^item> \<^verbatim>\<open>Add(key, value)\<close> moves an existing key to the front; a new key is pushed to the front
    and, when the list is then longer than \<^verbatim>\<open>size\<close>, the oldest entry (the back) is removed.
\<close>

datatype error = ErrPositiveSize | Panic

record 'k lru =
  lru_size :: int
  evictList :: "'k list"

definition lru_New :: "int \<Rightarrow> error + 'k lru" where
  "lru_New sz = (if sz \<le> 0 then Inl ErrPositiveSize else Inr \<lparr>lru_size = sz, evictList = []\<rparr>)"

definition lru_Contains :: "'k lru \<Rightarrow> 'k \<Rightarrow> bool" where
  "lru_Contains c key = (key \<in> set (evictList c))"

definition removeOldest :: "'k lru \<Rightarrow> 'k lru" where
  "removeOldest c = c\<lparr>evictList := butlast (evictList c)\<rparr>"

definition lru_Add :: "'k lru \<Rightarrow> 'k \<Rightarrow> 'k lru" where
  "lru_Add c key =
     (if key \<in> set (evictList c)
      then c\<lparr>evictList := key # remove1 key (evictList c)\<rparr>
      else (let c' = c\<lparr>evictList := key # evictList c\<rparr>
            in if int (length (evictList c')) > lru_size c' then removeOldest c' else c'))"

section \<open>DedupCache\<close>

text \<open>
  \<^verbatim>\<open>type DedupCache struct { cache *lru.Cache[string, bool]; ttl time.Duration }\<close>.
  \<open>ttl\<close> is the duration in nanoseconds (\<^verbatim>\<open>time.Duration(ttlSeconds) * time.Second\<close>).
\<close>

record 'k DedupCache =
  cache :: "'k lru"
  ttl :: int

definition NewDedupCache :: "int \<Rightarrow> int \<Rightarrow> error + 'k DedupCache" where
  "NewDedupCache sz ttlSeconds =
     (case lru_New sz of
        Inl err \<Rightarrow> Inl err
      | Inr c \<Rightarrow> Inr \<lparr>cache = c, ttl = ttlSeconds * 1000000000\<rparr>)"

text \<open>
  \<^verbatim>\<open>IsDuplicate\<close> returns its boolean and the store as the call leaves it. It reads no clock and
  never reads \<open>ttl\<close>.
\<close>

definition IsDuplicate :: "(frame \<Rightarrow> 'k) \<Rightarrow> 'k DedupCache \<Rightarrow> frame \<Rightarrow> bool \<times> 'k DedupCache" where
  "IsDuplicate hash d data =
     (let key = hash data
      in if lru_Contains (cache d) key then (True, d)
         else (False, d\<lparr>cache := lru_Add (cache d) key\<rparr>))"

text \<open>
  A sequence of calls on one store, as the unit test makes them: the answers in call order and
  the final store.
\<close>

fun IsDuplicate_calls ::
  "(frame \<Rightarrow> 'k) \<Rightarrow> 'k DedupCache \<Rightarrow> frame list \<Rightarrow> bool list \<times> 'k DedupCache" where
  "IsDuplicate_calls hash d [] = ([], d)"
| "IsDuplicate_calls hash d (data # rest) =
     (let (r, d') = IsDuplicate hash d data;
          (rs, d'') = IsDuplicate_calls hash d' rest
      in (r # rs, d''))"

text \<open>
  The same calls made at given clock readings (nanoseconds): the store is the only state, so
  the reading at which a call is made does not enter it.
\<close>

fun IsDuplicate_at ::
  "(frame \<Rightarrow> 'k) \<Rightarrow> 'k DedupCache \<Rightarrow> (int \<times> frame) list \<Rightarrow> bool list \<times> 'k DedupCache" where
  "IsDuplicate_at hash d [] = ([], d)"
| "IsDuplicate_at hash d ((now, data) # rest) =
     (let (r, d') = IsDuplicate hash d data;
          (rs, d'') = IsDuplicate_at hash d' rest
      in (r # rs, d''))"

section \<open>Configuration, connections and peers\<close>

text \<open>
  The fields of \<^verbatim>\<open>config.Config\<close> that the relay reads or writes. Go's \<^verbatim>\<open>int\<close> is modelled
  as \<open>int\<close>; the unsigned 64-bit counters are \<open>64 word\<close>, whose addition wraps as
  \<^verbatim>\<open>atomic.AddUint64\<close> does.
\<close>

record Config =
  ListenAddr :: string
  Peers :: "string list"
  DedupCacheSize :: int
  DedupCacheTTL :: int
  SortField :: string
  SortReverse :: bool
  BannedHosts :: "string list"
  BannedIDs :: "string list"
  MaxChildren :: int
  NetworkKey :: string

text \<open>\<^verbatim>\<open>config.DefaultConfig\<close>; the network key has Go's zero value.\<close>

definition DefaultConfig :: Config where
  "DefaultConfig =
     \<lparr>ListenAddr = '':8787'', Peers = [], DedupCacheSize = 64000, DedupCacheTTL = 30,
      SortField = ''id'', SortReverse = False, BannedHosts = [], BannedIDs = [],
      MaxChildren = 5, NetworkKey = []\<rparr>"

text \<open>
  What the relay asks of a \<^verbatim>\<open>net.Conn\<close>: \<^verbatim>\<open>RemoteAddr().String()\<close>, the host part that
  \<^verbatim>\<open>net.SplitHostPort\<close> returns for that string, and the textual form of the address's IP.
\<close>

record NetConn =
  RemoteAddr :: string
  RemoteHost :: string
  RemoteIP :: string

text \<open>
  \<^verbatim>\<open>peer.Peer\<close>. \<open>SendChan\<close> is the buffered channel of capacity 1000, as the list of queued
  frames, oldest first. \<open>written\<close> records the bytes the send stream has written to the
  connection. Times are nanoseconds. The two float fields (lat, lon) are left out.
\<close>

record Peer =
  ID :: string
  Conn :: NetConn
  ConnectedAt :: int
  SendChan :: "frame list"
  lastSeen :: int
  sentBytes :: u64
  recvBytes :: u64
  sentPkts :: u64
  recvPkts :: u64
  errors :: u64
  country :: string
  city :: string
  hostname :: string
  parentID :: string
  numChildren :: int
  maxChildren :: int
  whois :: string
  networkKey :: string
  written :: "byte list"

text \<open>\<^verbatim>\<open>NewPeer\<close>: every field it does not name has Go's zero value; \<open>now\<close> is \<^verbatim>\<open>time.Now()\<close>.\<close>

definition NewPeer :: "string \<Rightarrow> NetConn \<Rightarrow> string \<Rightarrow> int \<Rightarrow> Peer" where
  "NewPeer pid conn key now =
     \<lparr>ID = pid, Conn = conn, ConnectedAt = now, SendChan = [], lastSeen = now,
      sentBytes = 0, recvBytes = 0, sentPkts = 0, recvPkts = 0, errors = 0,
      country = [], city = [], hostname = [], parentID = [],
      numChildren = 0, maxChildren = 0, whois = [], networkKey = key, written = []\<rparr>"

record PeerStat =
  PeerStat_ID :: string
  PeerStat_IP :: string
  PeerStat_ConnectedAt :: int
  PeerStat_LastSeen :: int
  PeerStat_SentBytes :: u64
  PeerStat_RecvBytes :: u64
  PeerStat_SentPkts :: u64
  PeerStat_RecvPkts :: u64
  PeerStat_Errors :: u64
  PeerStat_Hostname :: string
  PeerStat_ParentID :: string
  PeerStat_NumChildren :: int
  PeerStat_MaxChildren :: int
  PeerStat_Country :: string
  PeerStat_City :: string
  PeerStat_Whois :: string

definition GetStats :: "Peer \<Rightarrow> PeerStat" where
  "GetStats p =
     \<lparr>PeerStat_ID = ID p, PeerStat_IP = RemoteIP (Conn p),
      PeerStat_ConnectedAt = ConnectedAt p, PeerStat_LastSeen = lastSeen p,
      PeerStat_SentBytes = sentBytes p, PeerStat_RecvBytes = recvBytes p,
      PeerStat_SentPkts = sentPkts p, PeerStat_RecvPkts = recvPkts p,
      PeerStat_Errors = errors p, PeerStat_Hostname = hostname p,
      PeerStat_ParentID = parentID p, PeerStat_NumChildren = numChildren p,
      PeerStat_MaxChildren = maxChildren p, PeerStat_Country = country p,
      PeerStat_City = city p, PeerStat_Whois = whois p\<rparr>"

section \<open>Server\<close>

text \<open>
  \<^verbatim>\<open>relay.Server\<close>. The registry \<^verbatim>\<open>map[string]*peer.Peer\<close> is an association list with one
  entry per key. \<open>injected\<close> records the frames handed to \<^verbatim>\<open>capturer.Inject\<close>, in call order;
  \<open>dialers\<close> records the addresses for which \<^verbatim>\<open>AddPeer\<close> started \<^verbatim>\<open>connectToPeer\<close>.
\<close>

record 'k Server =
  cfg :: Config
  dedup :: "'k DedupCache"
  peers :: "(string \<times> Peer) list"
  totalReceived :: u64
  totalForwarded :: u64
  totalDropped :: u64
  totalErrors :: u64
  demoMode :: bool
  demoPacketRate :: int
  demoDropRate :: int
  demoErrorRate :: int
  demoNumPeers :: int
  injected :: "frame list"
  dialers :: "string list"

definition NewServer :: "Config \<Rightarrow> error + 'k Server" where
  "NewServer c =
     (case NewDedupCache (DedupCacheSize c) (DedupCacheTTL c) of
        Inl err \<Rightarrow> Inl err
      | Inr d \<Rightarrow>
          Inr \<lparr>cfg = c, dedup = d, peers = [],
               totalReceived = 0, totalForwarded = 0, totalDropped = 0, totalErrors = 0,
               demoMode = False, demoPacketRate = 15, demoDropRate = 3, demoErrorRate = 10,
               demoNumPeers = 5, injected = [], dialers = []\<rparr>)"

subsection \<open>Broadcast\<close>

text \<open>
  \<^verbatim>\<open>select { case p.SendChan <- data: default: }\<close>: the send succeeds when the buffer holds
  fewer than 1000 frames; otherwise the default branch drops the frame for this peer.
\<close>

definition trySend :: "frame \<Rightarrow> Peer \<Rightarrow> Peer" where
  "trySend data p =
     (if length (SendChan p) < 1000 then p\<lparr>SendChan := SendChan p @ [data]\<rparr> else p)"

definition broadcastToPeers :: "'k Server \<Rightarrow> frame \<Rightarrow> 'k Server" where
  "broadcastToPeers s data = s\<lparr>peers := map (\<lambda>(pid, p). (pid, trySend data p)) (peers s)\<rparr>"

subsection \<open>The main relay loop\<close>

text \<open>
  One iteration of the loop in \<^verbatim>\<open>Server.Start\<close> per received value: \<open>PacketChan data\<close> is a
  frame from the capture channel, \<open>PeerRelayChan data failed\<close> a frame from a peer, where
  \<open>failed\<close> says whether \<^verbatim>\<open>capturer.Inject\<close> returns an error for it.
\<close>

datatype relay_event = PacketChan frame | PeerRelayChan frame bool

fun relay_step :: "(frame \<Rightarrow> 'k) \<Rightarrow> 'k Server \<Rightarrow> relay_event \<Rightarrow> 'k Server" where
  "relay_step hash s (PacketChan data) =
     (let s1 = s\<lparr>totalReceived := totalReceived s + 1\<rparr>;
          (dup, d) = IsDuplicate hash (dedup s1) data;
          s2 = s1\<lparr>dedup := d\<rparr>
      in if dup then s2\<lparr>totalDropped := totalDropped s2 + 1\<rparr>
         else (let s3 = broadcastToPeers s2 data
               in s3\<lparr>totalForwarded := totalForwarded s3 + 1\<rparr>))"
| "relay_step hash s (PeerRelayChan data failed) =
     (let (dup, d) = IsDuplicate hash (dedup s) data;
          s1 = s\<lparr>dedup := d\<rparr>
      in if dup then s1
         else (let s2 = s1\<lparr>injected := injected s1 @ [data]\<rparr>
               in if failed then s2\<lparr>totalErrors := totalErrors s2 + 1\<rparr> else s2))"

fun relay_loop :: "(frame \<Rightarrow> 'k) \<Rightarrow> 'k Server \<Rightarrow> relay_event list \<Rightarrow> 'k Server" where
  "relay_loop hash s [] = s"
| "relay_loop hash s (ev # evs) = relay_loop hash (relay_step hash s ev) evs"

subsection \<open>Admission\<close>

text \<open>
  \<^verbatim>\<open>handleNewConn\<close> up to the call of \<^verbatim>\<open>p.Run\<close>: the verdict and the server as it is while the
  peer runs. \<^verbatim>\<open>Run\<close>'s callback, called when the peer's streams have ended, is \<open>onDisconnect\<close>.
\<close>

datatype admission = RejectedBannedID | RejectedBannedHost | RejectedMaxChildren | Admitted

definition localChildren :: "'k Server \<Rightarrow> int" where
  "localChildren s =
     int (length (filter (\<lambda>(pid, p). PeerStat_ParentID (GetStats p) = ''Local'') (peers s)))"

definition handleNewConn :: "'k Server \<Rightarrow> NetConn \<Rightarrow> int \<Rightarrow> admission \<times> 'k Server" where
  "handleNewConn s conn now =
     (let peerID = RemoteAddr conn; ip = RemoteHost conn
      in if peerID \<in> set (BannedIDs (cfg s)) then (RejectedBannedID, s)
         else if ip \<in> set (BannedHosts (cfg s)) then (RejectedBannedHost, s)
         else if localChildren s \<ge> MaxChildren (cfg s) then (RejectedMaxChildren, s)
         else (Admitted,
               s\<lparr>peers := AList.update peerID (NewPeer peerID conn (NetworkKey (cfg s)) now)
                            (peers s)\<rparr>))"

definition onDisconnect :: "'k Server \<Rightarrow> string \<Rightarrow> 'k Server" where
  "onDisconnect s pid = s\<lparr>peers := AList.delete pid (peers s)\<rparr>"

text \<open>Connections handled one after the other, none of them ending in between.\<close>

fun handleNewConns ::
  "'k Server \<Rightarrow> (NetConn \<times> int) list \<Rightarrow> admission list \<times> 'k Server" where
  "handleNewConns s [] = ([], s)"
| "handleNewConns s ((conn, now) # rest) =
     (let (v, s') = handleNewConn s conn now;
          (vs, s'') = handleNewConns s' rest
      in (v # vs, s''))"

section \<open>The two streams of a peer\<close>

text \<open>
  \<^verbatim>\<open>binary.Write(p.Conn, binary.BigEndian, uint32(n))\<close> and its inverse
  \<^verbatim>\<open>binary.Read(p.Conn, binary.BigEndian, &length)\<close>.
\<close>

definition put_be32 :: "32 word \<Rightarrow> byte list" where
  "put_be32 w = [ucast (drop_bit 24 w), ucast (drop_bit 16 w), ucast (drop_bit 8 w), ucast w]"

definition get_be32 :: "byte list \<Rightarrow> 32 word" where
  "get_be32 bs = foldl (\<lambda>acc b. push_bit 8 acc OR ucast b) 0 bs"

text \<open>
  The sender goroutine of \<^verbatim>\<open>Peer.Run\<close>, on the frames it takes from \<open>SendChan\<close>, every write
  succeeding: length header, frame bytes, then the two counters.
\<close>

fun sender :: "Peer \<Rightarrow> frame list \<Rightarrow> Peer" where
  "sender p [] = p"
| "sender p (data # rest) =
     sender (p\<lparr>written := written p @ put_be32 (word_of_nat (length data)) @ data,
               sentBytes := sentBytes p + word_of_nat (length data),
               sentPkts := sentPkts p + 1\<rparr>) rest"

definition drain_SendChan :: "Peer \<Rightarrow> Peer" where
  "drain_SendChan p = sender (p\<lparr>SendChan := []\<rparr>) (SendChan p)"

text \<open>
  The receiver goroutine of \<^verbatim>\<open>Peer.Run\<close>, on the bytes the connection delivers before it
  ends in \<open>EOF\<close> (closed by the remote side) or \<open>ConnError\<close> (any other read error). The result
  is the reason the goroutine returned, the peer as it leaves it and the frames it published
  on the relay channel, in order. \<^verbatim>\<open>binary.Read\<close> and \<^verbatim>\<open>io.ReadFull\<close> return \<^verbatim>\<open>io.EOF\<close> only when
  no byte at all could be read at the end of the stream.
\<close>

datatype stream_end = EOF | ConnError

datatype recv_exit = LengthEOF | LengthError | TooLarge "32 word" | DataError

function receiver :: "int \<Rightarrow> Peer \<Rightarrow> byte list \<Rightarrow> stream_end \<Rightarrow> recv_exit \<times> Peer \<times> frame list" where
  "receiver now p inp fin =
     (if length inp < 4
      then (if inp = [] \<and> fin = EOF then (LengthEOF, p, [])
            else (LengthError, p\<lparr>errors := errors p + 1\<rparr>, []))
      else (let len = get_be32 (take 4 inp); rest = drop 4 inp
            in if len > 2000 then (TooLarge len, p, [])
               else if length rest < unat len then (DataError, p, [])
               else (let data = take (unat len) rest;
                         p' = p\<lparr>recvBytes := recvBytes p + ucast len,
                                 recvPkts := recvPkts p + 1,
                                 lastSeen := now\<rparr>;
                         (ex, p'', published) = receiver now p' (drop (unat len) rest) fin
                     in (ex, p'', data # published))))"
  by pat_completeness auto
termination
  by (relation "measure (\<lambda>(now, p, inp, fin). length inp)") auto

declare receiver.simps [simp del]

text \<open>
  The receiver of the registered peer \<open>pid\<close>: the goroutine works on the very \<^verbatim>\<open>*Peer\<close> that
  the registry holds, so the registry sees its counters.
\<close>

definition Run_receiver ::
  "'k Server \<Rightarrow> string \<Rightarrow> int \<Rightarrow> byte list \<Rightarrow> stream_end \<Rightarrow> (recv_exit \<times> 'k Server \<times> frame list) option" where
  "Run_receiver s pid now inp fin =
     (case map_of (peers s) pid of
        None \<Rightarrow> None
      | Some p \<Rightarrow>
          (let (ex, p', published) = receiver now p inp fin
           in Some (ex, s\<lparr>peers := AList.update pid p' (peers s)\<rparr>, published)))"

section \<open>Statistics\<close>

record Stats =
  Stats_TotalReceived :: u64
  Stats_TotalForwarded :: u64
  Stats_TotalDropped :: u64
  Stats_TotalErrors :: u64
  Stats_Peers :: "PeerStat list"
  Stats_SortField :: string
  Stats_SortReverse :: bool
  Stats_ListenAddr :: string
  Stats_MaxChildren :: int

text \<open>
  The comparison function that \<^verbatim>\<open>SortPeers\<close> hands to \<^verbatim>\<open>sort.Slice\<close>. Go compares strings
  byte by byte, which is the lexicographic order on \<open>char list\<close>; \<^verbatim>\<open>Before\<close> on times is \<open><\<close>
  on the instants; \<open><\<close> on \<open>64 word\<close> is unsigned.
\<close>

definition SortPeers_less :: "string \<Rightarrow> bool \<Rightarrow> PeerStat \<Rightarrow> PeerStat \<Rightarrow> bool" where
  "SortPeers_less field reverse p1 p2 =
     (let less =
        (if field = ''id'' then PeerStat_ID p1 < PeerStat_ID p2
         else if field = ''ip'' then PeerStat_IP p1 < PeerStat_IP p2
         else if field = ''hostname'' then PeerStat_Hostname p1 < PeerStat_Hostname p2
         else if field = ''connected'' then PeerStat_ConnectedAt p1 < PeerStat_ConnectedAt p2
         else if field = ''last_seen'' then PeerStat_LastSeen p1 < PeerStat_LastSeen p2
         else if field = ''children'' then PeerStat_NumChildren p1 < PeerStat_NumChildren p2
         else if field = ''sent_bytes'' then PeerStat_SentBytes p1 < PeerStat_SentBytes p2
         else if field = ''recv_bytes'' then PeerStat_RecvBytes p1 < PeerStat_RecvBytes p2
         else if field = ''sent_pkts'' then PeerStat_SentPkts p1 < PeerStat_SentPkts p2
         else if field = ''recv_pkts'' then PeerStat_RecvPkts p1 < PeerStat_RecvPkts p2
         else if field = ''errors'' then PeerStat_Errors p1 < PeerStat_Errors p2
         else PeerStat_ID p1 < PeerStat_ID p2)
      in if reverse then \<not> less else less)"

text \<open>
  \<^verbatim>\<open>sort.Slice\<close> is the Go standard library. For slices of at most 12 elements it runs
  \<^verbatim>\<open>insertionSortLessFunc\<close>, which is modelled here: element \<open>i\<close> is swapped towards the
  front while \<^verbatim>\<open>less(data[j], data[j-1])\<close> holds. \<open>insert_back\<close> works on the sorted prefix
  held back to front. Longer slices go through pattern-defeating quicksort, which returns some
  arrangement of the slice that is ordered by \<^verbatim>\<open>less\<close> as well, but is not modelled.
\<close>

fun insert_back :: "('a \<Rightarrow> 'a \<Rightarrow> bool) \<Rightarrow> 'a \<Rightarrow> 'a list \<Rightarrow> 'a list" where
  "insert_back lt x [] = [x]"
| "insert_back lt x (y # ys) = (if lt x y then y # insert_back lt x ys else x # y # ys)"

definition sort_Slice :: "('a \<Rightarrow> 'a \<Rightarrow> bool) \<Rightarrow> 'a list \<Rightarrow> 'a list" where
  "sort_Slice lt xs = rev (foldl (\<lambda>acc x. insert_back lt x acc) [] xs)"

definition SortPeers :: "Stats \<Rightarrow> Stats" where
  "SortPeers st =
     st\<lparr>Stats_Peers := sort_Slice (SortPeers_less (Stats_SortField st) (Stats_SortReverse st))
                          (Stats_Peers st)\<rparr>"

text \<open>
  \<^verbatim>\<open>CollectStats\<close>. Go leaves the order in which \<^verbatim>\<open>range s.peers\<close> visits a map unspecified and
  varies it from one loop to the next, so the order of the visit is the argument \<open>visit\<close>: some
  arrangement of the registry's entries.
\<close>

definition range_of :: "(string \<times> Peer) list \<Rightarrow> (string \<times> Peer) list \<Rightarrow> bool" where
  "range_of registry visit = (mset visit = mset registry)"

definition CollectStats :: "'k Server \<Rightarrow> (string \<times> Peer) list \<Rightarrow> Stats" where
  "CollectStats s visit =
     SortPeers
       \<lparr>Stats_TotalReceived = totalReceived s, Stats_TotalForwarded = totalForwarded s,
        Stats_TotalDropped = totalDropped s, Stats_TotalErrors = totalErrors s,
        Stats_Peers = map (\<lambda>(pid, p). GetStats p) visit,
        Stats_SortField = SortField (cfg s), Stats_SortReverse = SortReverse (cfg s),
        Stats_ListenAddr = ListenAddr (cfg s), Stats_MaxChildren = MaxChildren (cfg s)\<rparr>"

section \<open>Adding a peer\<close>

text \<open>
  The string functions \<^verbatim>\<open>AddPeer\<close> calls. \<^verbatim>\<open>net.JoinHostPort\<close> brackets the host when the host
  contains a colon. \<^verbatim>\<open>strings.LastIndex\<close> is \<open>-1\<close> when the byte does not occur, and slicing
  from a negative index panics.
\<close>

definition JoinHostPort :: "string \<Rightarrow> string \<Rightarrow> string" where
  "JoinHostPort host port =
     (if CHR '':'' \<in> set host then ''['' @ host @ '']:'' @ port else host @ '':'' @ port)"

definition HasSuffix_colon :: "string \<Rightarrow> bool" where
  "HasSuffix_colon a = (a \<noteq> [] \<and> last a = CHR '':'')"

fun LastIndex_from :: "char \<Rightarrow> string \<Rightarrow> int \<Rightarrow> int \<Rightarrow> int" where
  "LastIndex_from c [] i found = found"
| "LastIndex_from c (x # xs) i found = LastIndex_from c xs (i + 1) (if x = c then i else found)"

definition LastIndex :: "string \<Rightarrow> char \<Rightarrow> int" where
  "LastIndex a c = LastIndex_from c a 0 (- 1)"

definition slice_from :: "string \<Rightarrow> int \<Rightarrow> error + string" where
  "slice_from a i = (if 0 \<le> i \<and> i \<le> int (length a) then Inr (drop (nat i) a) else Inl Panic)"

definition default_port :: "string \<Rightarrow> error + string" where
  "default_port addr =
     (if CHR '']'' \<notin> set addr
      then (if CHR '':'' \<notin> set addr then Inr (JoinHostPort addr ''8787'') else Inr addr)
      else (case slice_from addr (LastIndex addr CHR '']'') of
              Inl err \<Rightarrow> Inl err
            | Inr tail \<Rightarrow>
                if \<not> HasSuffix_colon addr \<and> CHR '':'' \<notin> set tail
                then Inr (JoinHostPort addr ''8787'') else Inr addr))"

definition AddPeer :: "'k Server \<Rightarrow> string \<Rightarrow> error + 'k Server" where
  "AddPeer s addr0 =
     (case default_port addr0 of
        Inl err \<Rightarrow> Inl err
      | Inr addr \<Rightarrow>
          if addr \<in> set (Peers (cfg s)) then Inr s
          else (let s1 = s\<lparr>cfg := (cfg s)\<lparr>Peers := Peers (cfg s) @ [addr]\<rparr>\<rparr>
                in Inr (if \<not> demoMode s1 then s1\<lparr>dialers := dialers s1 @ [addr]\<rparr> else s1)))"

section \<open>Demo mode\<close>

text \<open>
  Go's \<^verbatim>\<open>/\<close> and \<^verbatim>\<open>%\<close> on signed integers truncate towards zero, and panic on a zero divisor.
  \<^verbatim>\<open>uint64(x)\<close> of a signed \<open>x\<close> is \<open>x\<close> modulo \<open>2 ^ 64\<close>.
\<close>

definition go_div :: "int \<Rightarrow> int \<Rightarrow> int" where
  "go_div a b = sgn a * sgn b * (\<bar>a\<bar> div \<bar>b\<bar>)"

definition go_rem :: "int \<Rightarrow> int \<Rightarrow> int" where
  "go_rem a b = sgn a * (\<bar>a\<bar> mod \<bar>b\<bar>)"

definition UpdateDemoProps :: "'k Server \<Rightarrow> int \<Rightarrow> int \<Rightarrow> int \<Rightarrow> int \<Rightarrow> 'k Server" where
  "UpdateDemoProps s packetRate dropRate errorRate numPeers =
     s\<lparr>demoPacketRate := packetRate, demoDropRate := dropRate,
       demoErrorRate := errorRate, demoNumPeers := numPeers\<rparr>"

text \<open>
  The four counter updates at the end of one tick of \<^verbatim>\<open>runDemo\<close>; \<open>t1\<close> to \<open>t4\<close> are the four
  readings of \<^verbatim>\<open>time.Now().Unix()\<close>, in the order the statements take them. The reconciliation
  of the mock peers before them does not touch the four counters.
\<close>

definition runDemo_counters :: "'k Server \<Rightarrow> int \<Rightarrow> int \<Rightarrow> int \<Rightarrow> int \<Rightarrow> error + 'k Server" where
  "runDemo_counters s t1 t2 t3 t4 =
     (let m = go_div (demoPacketRate s) 2 + 1
      in if m = 0 then Inl Panic
         else (let s1 = s\<lparr>totalReceived :=
                             totalReceived s + word_of_int (demoPacketRate s + go_rem t1 m)\<rparr>;
                   s2 = s1\<lparr>totalForwarded :=
                             totalForwarded s1
                               + word_of_int (demoPacketRate s - demoDropRate s + go_rem t2 m)\<rparr>
               in if demoDropRate s + 1 = 0 then Inl Panic
                  else (let s3 = s2\<lparr>totalDropped :=
                                      totalDropped s2
                                        + word_of_int (go_rem t3 (demoDropRate s + 1))\<rparr>
                        in if demoErrorRate s > 0 \<and> go_rem t4 (demoErrorRate s) = 0
                           then Inr (s3\<lparr>totalErrors := totalErrors s3 + 1\<rparr>)
                           else Inr s3)))"

section \<open>Well-formed stores\<close>

text \<open>
  What \<^verbatim>\<open>lru.New\<close> establishes and \<^verbatim>\<open>Add\<close> keeps: a positive capacity that the eviction list
  does not exceed.
\<close>

definition dedup_inv :: "'k DedupCache \<Rightarrow> bool" where
  "dedup_inv d = (0 < lru_size (cache d) \<and> int (length (evictList (cache d))) \<le> lru_size (cache d))"

section \<open>Initial states\<close>

text \<open>
  The server that \<^verbatim>\<open>NewServer\<close> returns for the default configuration (\<open>NewServer_default\<close>
  below), an IPv4 TCP connection from \<open>host:port\<close>, and that server with two peers admitted by
  \<open>handleNewConn\<close>.
\<close>

definition new_server :: "'k Server" where
  "new_server =
     \<lparr>cfg = DefaultConfig,
      dedup = \<lparr>cache = \<lparr>lru_size = 64000, evictList = []\<rparr>, ttl = 30000000000\<rparr>,
      peers = [],
      totalReceived = 0, totalForwarded = 0, totalDropped = 0, totalErrors = 0,
      demoMode = False, demoPacketRate = 15, demoDropRate = 3, demoErrorRate = 10,
      demoNumPeers = 5, injected = [], dialers = []\<rparr>"

definition tcp_conn :: "string \<Rightarrow> string \<Rightarrow> NetConn" where
  "tcp_conn host port = \<lparr>RemoteAddr = host @ '':'' @ port, RemoteHost = host, RemoteIP = host\<rparr>"

definition two_peers :: "'k Server" where
  "two_peers =
     snd (handleNewConn
            (snd (handleNewConn new_server (tcp_conn ''10.0.0.2'' ''40001'') 0))
            (tcp_conn ''10.0.0.3'' ''40002'') 0)"

text \<open>
  The new server with one peer whose \<open>SendChan\<close> holds 1000 frames: frames were broadcast
  faster than the peer's sender goroutine could write them.
\<close>

definition full_queue_server :: "'k Server" where
  "full_queue_server =
     new_server\<lparr>peers :=
       [(''10.0.0.2:40001'',
         (NewPeer ''10.0.0.2:40001'' (tcp_conn ''10.0.0.2'' ''40001'') [] 0)
           \<lparr>SendChan := replicate 1000 [0x00]\<rparr>)]\<rparr>"

section \<open>Registries and sort keys\<close>

text \<open>
  What every insertion into the registry establishes (\<^verbatim>\<open>s.peers[peerID] = p\<close> with
  \<^verbatim>\<open>p.ID = peerID\<close>): one entry per key, each peer stored under its own ID.
\<close>

definition registry_inv :: "(string \<times> Peer) list \<Rightarrow> bool" where
  "registry_inv registry =
     (distinct (map fst registry) \<and> list_all (\<lambda>(pid, p). ID p = pid) registry)"

text \<open>The sort fields that \<^verbatim>\<open>SortPeers\<close> names in its switch.\<close>

definition recognized_fields :: "string list" where
  "recognized_fields =
     [''id'', ''ip'', ''hostname'', ''connected'', ''last_seen'', ''children'',
      ''sent_bytes'', ''recv_bytes'', ''sent_pkts'', ''recv_pkts'', ''errors'']"

text \<open>
  The field tells any two different records of the list apart: one of them is less than the
  other by the unreversed comparison.
\<close>

definition keys_apart :: "string \<Rightarrow> PeerStat list \<Rightarrow> bool" where
  "keys_apart field stats =
     list_all (\<lambda>p. list_all (\<lambda>q. p = q \<or> SortPeers_less field False p q
                                          \<or> SortPeers_less field False q p) stats) stats"

text \<open>
  A comparison that puts any two different elements of \<open>A\<close> in exactly one order, and does so
  transitively.
\<close>

definition ordered_apart :: "('a \<Rightarrow> 'a \<Rightarrow> bool) \<Rightarrow> 'a set \<Rightarrow> bool" where
  "ordered_apart lt A =
     ((\<forall>x\<in>A. \<forall>y\<in>A. x \<noteq> y \<longrightarrow> (lt x y \<or> lt y x) \<and> \<not> (lt x y \<and> lt y x)) \<and>
      (\<forall>x\<in>A. \<forall>y\<in>A. \<forall>z\<in>A.
         x \<noteq> y \<and> y \<noteq> z \<and> x \<noteq> z \<and> lt x y \<and> lt y z \<longrightarrow> lt x z))"

section \<open>Reference definitions for the comparison with the specification\<close>

text \<open>
  The keys of the calls that were answered \<open>False\<close>, in call order: the insertions that a run
  of \<open>IsDuplicate_calls\<close> made.
\<close>

fun missed :: "(frame \<Rightarrow> 'k) \<Rightarrow> frame list \<Rightarrow> bool list \<Rightarrow> 'k list" where
  "missed hash (f # fs) (r # rs) =
     (if r then missed hash fs rs else hash f # missed hash fs rs)"
| "missed hash _ _ = []"

text \<open>
  \<open>test_and_insert\<close> in the specification's words: the answer is whether the fingerprint was
  present, and the store evicts the least recently used entry, a hit being a use of the entry
  (\<^verbatim>\<open>Add\<close> on a key that is present moves it to the front of the eviction list). It is not
  part of the program; the results below compare \<open>IsDuplicate\<close> with it.
\<close>

definition spec_test_and_insert ::
  "(frame \<Rightarrow> 'k) \<Rightarrow> 'k DedupCache \<Rightarrow> frame \<Rightarrow> bool \<times> 'k DedupCache" where
  "spec_test_and_insert hash d data =
     (let key = hash data
      in (lru_Contains (cache d) key, d\<lparr>cache := lru_Add (cache d) key\<rparr>))"

fun spec_calls ::
  "(frame \<Rightarrow> 'k) \<Rightarrow> 'k DedupCache \<Rightarrow> frame list \<Rightarrow> bool list \<times> 'k DedupCache" where
  "spec_calls hash d [] = ([], d)"
| "spec_calls hash d (data # rest) =
     (let (r, d') = spec_test_and_insert hash d data;
          (rs, d'') = spec_calls hash d' rest
      in (r # rs, d''))"

section \<open>Deduplication store: results\<close>

lemma IsDuplicate_hit:
  "lru_Contains (cache d) (hash data) \<Longrightarrow> IsDuplicate hash d data = (True, d)"
  by (simp add: IsDuplicate_def)

lemma IsDuplicate_miss:
  "\<not> lru_Contains (cache d) (hash data) \<Longrightarrow>
   IsDuplicate hash d data = (False, d\<lparr>cache := lru_Add (cache d) (hash data)\<rparr>)"
  by (simp add: IsDuplicate_def)

lemma NewDedupCache_Inr:
  "NewDedupCache n t = Inr d \<longleftrightarrow>
     0 < n \<and> d = \<lparr>cache = \<lparr>lru_size = n, evictList = []\<rparr>, ttl = t * 1000000000\<rparr>"
  by (auto simp: NewDedupCache_def lru_New_def)

lemma NewDedupCache_fails:
  "(\<exists>err. (NewDedupCache n t :: error + 'k DedupCache) = Inl err) \<longleftrightarrow> n \<le> 0"
  by (auto simp: NewDedupCache_def lru_New_def)

lemma take_append_take: "take n (a @ take n b) = take n (a @ b)"
  by (induction a arbitrary: n) (auto simp: take_Cons')

lemma lru_Add_new:
  assumes "key \<notin> set (evictList c)" "0 < lru_size c" "int (length (evictList c)) \<le> lru_size c"
  shows "evictList (lru_Add c key) = take (nat (lru_size c)) (key # evictList c)"
    and "lru_size (lru_Add c key) = lru_size c"
proof -
  show "lru_size (lru_Add c key) = lru_size c"
    using assms by (auto simp: lru_Add_def removeOldest_def Let_def)
  show "evictList (lru_Add c key) = take (nat (lru_size c)) (key # evictList c)"
  proof (cases "int (length (evictList c)) = lru_size c")
    case True
    then have "nat (lru_size c) = length (evictList c)" by simp
    with True assms show ?thesis
      by (simp add: lru_Add_def removeOldest_def Let_def butlast_conv_take)
  next
    case False
    with assms have "length (evictList c) < nat (lru_size c)"
      and "\<not> lru_size c < 1 + int (length (evictList c))" by simp_all
    with assms show ?thesis
      by (simp add: lru_Add_def removeOldest_def Let_def)
  qed
qed

text \<open>
  After any run of calls the eviction list holds the most recent insertions, newest first, cut
  at the capacity: the calls that were hits leave no trace in it.
\<close>

lemma calls_evictList:
  assumes "0 < lru_size (cache d)" "int (length (evictList (cache d))) \<le> lru_size (cache d)"
    "IsDuplicate_calls hash d fs = (rs, d')"
  shows "evictList (cache d') =
           take (nat (lru_size (cache d))) (rev (missed hash fs rs) @ evictList (cache d))
         \<and> lru_size (cache d') = lru_size (cache d) \<and> ttl d' = ttl d"
  using assms
proof (induction fs arbitrary: d rs d')
  case Nil
  then show ?case by simp
next
  case (Cons f fs)
  obtain r d1 where s1: "IsDuplicate hash d f = (r, d1)"
    by (cases "IsDuplicate hash d f")
  obtain rs1 d2 where s2: "IsDuplicate_calls hash d1 fs = (rs1, d2)"
    by (cases "IsDuplicate_calls hash d1 fs")
  from Cons.prems(3) s1 s2 have eq: "rs = r # rs1" "d' = d2" by auto
  show ?case
  proof (cases "lru_Contains (cache d) (hash f)")
    case True
    with s1 have "r" "d1 = d" by (auto simp: IsDuplicate_def)
    with s2 have "IsDuplicate_calls hash d fs = (rs1, d2)" by simp
    from Cons.IH[OF Cons.prems(1) Cons.prems(2) this] \<open>r\<close> eq show ?thesis by simp
  next
    case False
    with s1 have r: "\<not> r" and d1: "d1 = d\<lparr>cache := lru_Add (cache d) (hash f)\<rparr>"
      by (auto simp: IsDuplicate_def)
    from False have nin: "hash f \<notin> set (evictList (cache d))"
      by (simp add: lru_Contains_def)
    note A = lru_Add_new[OF nin Cons.prems(1) Cons.prems(2)]
    have "0 < lru_size (cache d1)" "int (length (evictList (cache d1))) \<le> lru_size (cache d1)"
      using A Cons.prems(1,2) d1 by auto
    from Cons.IH[OF this s2] A d1 r eq show ?thesis
      by (simp add: take_append_take)
  qed
qed

lemma calls_capacity_2:
  assumes "NewDedupCache 2 t = Inr d0" "distinct [hash p1, hash p2, hash p3]"
  shows "IsDuplicate_calls hash d0 [p1, p2, p1, p3] =
           ([False, False, True, False],
            d0\<lparr>cache := \<lparr>lru_size = 2, evictList = [hash p3, hash p2]\<rparr>\<rparr>)"
  using assms
  by (auto simp: NewDedupCache_Inr IsDuplicate_def lru_Contains_def lru_Add_def
      removeOldest_def Let_def)

text \<open>
  Claim C10. A call that is a hit returns the store exactly as it found it, so it does not
  refresh the entry's place in the eviction order. From a new store of capacity \<open>n\<close>, the
  eviction list after any calls is the list of insertions, newest first, cut at \<open>n\<close>: only
  insertions establish the eviction order. With capacity 2 and three frames of different
  fingerprints, after the calls p1, p2, p1 (a hit), p3 the store holds p3 and p2: p1 has been
  evicted and is not a hit, p2 is still a hit.
\<close>

theorem C10_hit_keeps_eviction_order:
  "(lru_Contains (cache d) (hash data) \<longrightarrow> IsDuplicate hash d data = (True, d)) \<and>
   (NewDedupCache n ttlSeconds = Inr dn \<and> IsDuplicate_calls hash dn fs = (rs, d') \<longrightarrow>
      evictList (cache d') = take (nat n) (rev (missed hash fs rs))) \<and>
   (NewDedupCache 2 ttlSeconds = Inr d0 \<and> distinct [hash p1, hash p2, hash p3] \<longrightarrow>
      (let (answers, d4) = IsDuplicate_calls hash d0 [p1, p2, p1, p3]
       in answers = [False, False, True, False] \<and>
          evictList (cache d4) = [hash p3, hash p2] \<and>
          \<not> fst (IsDuplicate hash d4 p1) \<and> fst (IsDuplicate hash d4 p2)))"
proof (intro conjI impI)
  assume "lru_Contains (cache d) (hash data)"
  then show "IsDuplicate hash d data = (True, d)" by (rule IsDuplicate_hit)
next
  assume a: "NewDedupCache n ttlSeconds = Inr dn \<and> IsDuplicate_calls hash dn fs = (rs, d')"
  then have n: "0 < n" and dn: "lru_size (cache dn) = n" "evictList (cache dn) = []"
    by (auto simp: NewDedupCache_Inr)
  from a have "IsDuplicate_calls hash dn fs = (rs, d')" by simp
  from calls_evictList[OF _ _ this] n dn
  show "evictList (cache d') = take (nat n) (rev (missed hash fs rs))" by simp
next
  assume a: "NewDedupCache 2 ttlSeconds = Inr d0 \<and> distinct [hash p1, hash p2, hash p3]"
  then have "NewDedupCache 2 ttlSeconds = Inr d0" "distinct [hash p1, hash p2, hash p3]"
    by simp_all
  from calls_capacity_2[OF this] a
  show "let (answers, d4) = IsDuplicate_calls hash d0 [p1, p2, p1, p3]
        in answers = [False, False, True, False] \<and>
           evictList (cache d4) = [hash p3, hash p2] \<and>
           \<not> fst (IsDuplicate hash d4 p1) \<and> fst (IsDuplicate hash d4 p2)"
    by (simp add: IsDuplicate_def lru_Contains_def)
qed

theorem C10_hit_keeps_eviction_order_witness:
  "lru_Contains (cache \<lparr>cache = \<lparr>lru_size = 2, evictList = [[0x70, 0x31]]\<rparr>, ttl = 30000000000\<rparr>)
     (id [0x70, 0x31 :: byte]) \<and>
   IsDuplicate id \<lparr>cache = \<lparr>lru_size = 2, evictList = [[0x70, 0x31]]\<rparr>, ttl = 30000000000\<rparr>
     [0x70, 0x31 :: byte]
     = (True, \<lparr>cache = \<lparr>lru_size = 2, evictList = [[0x70, 0x31]]\<rparr>, ttl = 30000000000\<rparr>) \<and>
   NewDedupCache 2 30
     = Inr \<lparr>cache = \<lparr>lru_size = 2, evictList = ([] :: frame list)\<rparr>, ttl = 30000000000\<rparr> \<and>
   distinct [id [0x70, 0x31 :: byte], id [0x70, 0x32], id [0x70, 0x33]] \<and>
   IsDuplicate_calls id
     \<lparr>cache = \<lparr>lru_size = 2, evictList = []\<rparr>, ttl = 30000000000\<rparr>
     [[0x70, 0x31 :: byte], [0x70, 0x32], [0x70, 0x31], [0x70, 0x33]]
     = ([False, False, True, False],
        \<lparr>cache = \<lparr>lru_size = 2, evictList = [[0x70, 0x33], [0x70, 0x32]]\<rparr>,
         ttl = 30000000000\<rparr>) \<and>
   take (nat 2) (rev (missed id [[0x70, 0x31 :: byte], [0x70, 0x32], [0x70, 0x31], [0x70, 0x33]]
                        [False, False, True, False]))
     = [[0x70, 0x33], [0x70, 0x32]]"
  using C10_hit_keeps_eviction_order
    [where hash = id and d = "\<lparr>cache = \<lparr>lru_size = 2, evictList = [[0x70, 0x31]]\<rparr>,
                                   ttl = 30000000000\<rparr>"
       and data = "[0x70, 0x31]" and n = 2 and ttlSeconds = 30
       and dn = "\<lparr>cache = \<lparr>lru_size = 2, evictList = []\<rparr>, ttl = 30000000000\<rparr>"
       and ?d0.0 = "\<lparr>cache = \<lparr>lru_size = 2, evictList = []\<rparr>, ttl = 30000000000\<rparr>"
       and fs = "[[0x70, 0x31], [0x70, 0x32], [0x70, 0x31], [0x70, 0x33]]"
       and rs = "[False, False, True, False]"
       and d' = "\<lparr>cache = \<lparr>lru_size = 2, evictList = [[0x70, 0x33], [0x70, 0x32]]\<rparr>,
                  ttl = 30000000000\<rparr>"
       and ?p1.0 = "[0x70, 0x31]" and ?p2.0 = "[0x70, 0x32]" and ?p3.0 = "[0x70, 0x33]"]
  by (simp add: NewDedupCache_def lru_New_def IsDuplicate_def lru_Contains_def lru_Add_def
      removeOldest_def Let_def)

lemma IsDuplicate_answer:
  "fst (IsDuplicate hash d data) \<longleftrightarrow> lru_Contains (cache d) (hash data)"
  by (simp add: IsDuplicate_def Let_def)

lemma IsDuplicate_present_after:
  assumes "0 < lru_size (cache d)" "int (length (evictList (cache d))) \<le> lru_size (cache d)"
  shows "lru_Contains (cache (snd (IsDuplicate hash d data))) (hash data)"
proof (cases "lru_Contains (cache d) (hash data)")
  case True
  then show ?thesis by (simp add: IsDuplicate_def)
next
  case False
  then have nin: "hash data \<notin> set (evictList (cache d))"
    by (simp add: lru_Contains_def)
  from assms(1) have "0 < nat (lru_size (cache d))" by simp
  then obtain m where m: "nat (lru_size (cache d)) = Suc m"
    by (cases "nat (lru_size (cache d))") auto
  from False lru_Add_new(1)[OF nin assms] m show ?thesis
    by (simp add: IsDuplicate_def lru_Contains_def)
qed

lemma IsDuplicate_capacity:
  assumes "0 < lru_size (cache d)" "int (length (evictList (cache d))) \<le> lru_size (cache d)"
  shows "int (length (evictList (cache (snd (IsDuplicate hash d data))))) \<le> lru_size (cache d)
         \<and> lru_size (cache (snd (IsDuplicate hash d data))) = lru_size (cache d)"
proof (cases "lru_Contains (cache d) (hash data)")
  case True
  with assms show ?thesis by (simp add: IsDuplicate_def)
next
  case False
  then have nin: "hash data \<notin> set (evictList (cache d))"
    by (simp add: lru_Contains_def)
  from False lru_Add_new[OF nin assms] assms show ?thesis
    by (simp add: IsDuplicate_def)
qed

text \<open>
  The entry that a miss evicts from a full store is the one at the back of the eviction list,
  which by \<open>calls_evictList\<close> is the oldest insertion still held.
\<close>

lemma IsDuplicate_evicts_oldest_insertion:
  assumes "\<not> lru_Contains (cache d) (hash data)" "0 < lru_size (cache d)"
    "int (length (evictList (cache d))) = lru_size (cache d)"
  shows "evictList (cache (snd (IsDuplicate hash d data)))
           = hash data # butlast (evictList (cache d))"
  using assms
  by (auto simp: IsDuplicate_def lru_Contains_def lru_Add_def removeOldest_def Let_def)

text \<open>
  Claim C3, at the calls of the repository's own eviction test (capacity 2; p1, p2, p1 again,
  p3, p3 again, p2 again; three different fingerprints). The third call is a hit on p1, which
  makes p2 the least recently used entry when p3 arrives, and the test expects p2 to be gone at
  the sixth call. \<open>IsDuplicate\<close> evicts p1 instead, the entry used last, and answers the sixth
  call with a hit; the store of the specification's words, \<open>spec_test_and_insert\<close>, answers it
  with a miss. The other parts of the claim hold: the answer is the presence of the fingerprint
  (\<open>IsDuplicate_answer\<close>), a miss inserts it (\<open>IsDuplicate_present_after\<close>), the capacity is
  never exceeded (\<open>IsDuplicate_capacity\<close>), and a capacity of zero or less is refused
  (\<open>NewDedupCache_fails\<close>).
\<close>

theorem C3_hit_entry_is_evicted_first:
  "NewDedupCache 2 ttlSeconds = Inr d0 \<and> distinct [hash p1, hash p2, hash p3] \<longrightarrow>
     fst (IsDuplicate_calls hash d0 [p1, p2, p1, p3, p3, p2])
       = [False, False, True, False, True, True] \<and>
     fst (spec_calls hash d0 [p1, p2, p1, p3, p3, p2])
       = [False, False, True, False, True, False]"
  by (auto simp: NewDedupCache_Inr IsDuplicate_def spec_test_and_insert_def lru_Contains_def
      lru_Add_def removeOldest_def Let_def)

theorem C3_hit_entry_is_evicted_first_witness:
  "NewDedupCache 2 30
     = Inr \<lparr>cache = \<lparr>lru_size = 2, evictList = ([] :: frame list)\<rparr>, ttl = 30000000000\<rparr> \<and>
   distinct [id [0x70, 0x31 :: byte], id [0x70, 0x32], id [0x70, 0x33]] \<and>
   fst (IsDuplicate_calls id \<lparr>cache = \<lparr>lru_size = 2, evictList = []\<rparr>, ttl = 30000000000\<rparr>
          [[0x70, 0x31 :: byte], [0x70, 0x32], [0x70, 0x31], [0x70, 0x33], [0x70, 0x33],
           [0x70, 0x32]])
     = [False, False, True, False, True, True] \<and>
   fst (spec_calls id \<lparr>cache = \<lparr>lru_size = 2, evictList = []\<rparr>, ttl = 30000000000\<rparr>
          [[0x70, 0x31 :: byte], [0x70, 0x32], [0x70, 0x31], [0x70, 0x33], [0x70, 0x33],
           [0x70, 0x32]])
     = [False, False, True, False, True, False]"
  using C3_hit_entry_is_evicted_first
    [where hash = id and ttlSeconds = 30
       and ?d0.0 = "\<lparr>cache = \<lparr>lru_size = 2, evictList = []\<rparr>, ttl = 30000000000\<rparr>"
       and ?p1.0 = "[0x70, 0x31]" and ?p2.0 = "[0x70, 0x32]" and ?p3.0 = "[0x70, 0x33]"]
  by (simp add: NewDedupCache_def lru_New_def)

text \<open>
  Claim C4, at a frame whose only entry was inserted at the reading \<open>t0\<close> and which is looked
  up again at \<open>t1\<close>, more than the store's TTL later: the second call is a hit. \<open>IsDuplicate\<close>
  keeps no insertion time and reads neither a clock nor \<open>ttl\<close>.
\<close>

theorem C4_entry_older_than_ttl_is_a_hit:
  "NewDedupCache n ttlSeconds = Inr d0 \<and> ttl d0 < t1 - t0 \<longrightarrow>
     fst (IsDuplicate_at hash d0 [(t0, data), (t1, data)]) = [False, True]"
  by (auto simp: NewDedupCache_Inr IsDuplicate_def lru_Contains_def lru_Add_def
      removeOldest_def Let_def)

theorem C4_entry_older_than_ttl_is_a_hit_witness:
  "NewDedupCache 64000 30
     = Inr \<lparr>cache = \<lparr>lru_size = 64000, evictList = ([] :: frame list)\<rparr>,
            ttl = 30000000000\<rparr> \<and>
   ttl \<lparr>cache = \<lparr>lru_size = 64000, evictList = ([] :: frame list)\<rparr>, ttl = 30000000000\<rparr>
     < 31000000000 - 0 \<and>
   fst (IsDuplicate_at id \<lparr>cache = \<lparr>lru_size = 64000, evictList = []\<rparr>, ttl = 30000000000\<rparr>
          [(0, [0xAA :: byte]), (31000000000, [0xAA])]) = [False, True]"
  using C4_entry_older_than_ttl_is_a_hit
    [where hash = id and n = 64000 and ttlSeconds = 30
       and ?d0.0 = "\<lparr>cache = \<lparr>lru_size = 64000, evictList = []\<rparr>, ttl = 30000000000\<rparr>"
       and ?t0.0 = 0 and ?t1.0 = 31000000000 and data = "[0xAA]"]
  by (simp add: NewDedupCache_def lru_New_def)

section \<open>The relay loop: results\<close>

lemma NewServer_default: "NewServer DefaultConfig = Inr new_server"
  by (simp add: NewServer_def DefaultConfig_def NewDedupCache_def lru_New_def new_server_def)

lemma NewDedupCache_inv: "NewDedupCache n t = Inr d \<Longrightarrow> dedup_inv d"
  by (auto simp: NewDedupCache_Inr dedup_inv_def)

lemma IsDuplicate_inv: "dedup_inv d \<Longrightarrow> dedup_inv (snd (IsDuplicate hash d data))"
  using IsDuplicate_capacity[of d hash data] by (simp add: dedup_inv_def)

lemma IsDuplicate_again:
  "dedup_inv d \<Longrightarrow> fst (IsDuplicate hash (snd (IsDuplicate hash d data)) data)"
  using IsDuplicate_present_after[of d hash data]
  by (simp add: dedup_inv_def IsDuplicate_answer)

lemma relay_step_capture_dup:
  "lru_Contains (cache (dedup s)) (hash data) \<Longrightarrow>
   relay_step hash s (PacketChan data)
     = s\<lparr>totalReceived := totalReceived s + 1, totalDropped := totalDropped s + 1\<rparr>"
  by (simp add: IsDuplicate_def)

lemma relay_step_capture_new:
  "\<not> lru_Contains (cache (dedup s)) (hash data) \<Longrightarrow>
   relay_step hash s (PacketChan data)
     = s\<lparr>totalReceived := totalReceived s + 1,
         dedup := snd (IsDuplicate hash (dedup s) data),
         peers := map (\<lambda>(pid, p). (pid, trySend data p)) (peers s),
         totalForwarded := totalForwarded s + 1\<rparr>"
  by (simp add: IsDuplicate_def broadcastToPeers_def)

lemma relay_step_peer_dup:
  "lru_Contains (cache (dedup s)) (hash data) \<Longrightarrow>
   relay_step hash s (PeerRelayChan data failed) = s"
  by (simp add: IsDuplicate_def)

lemma relay_step_peer_new:
  "\<not> lru_Contains (cache (dedup s)) (hash data) \<Longrightarrow>
   relay_step hash s (PeerRelayChan data failed)
     = s\<lparr>dedup := snd (IsDuplicate hash (dedup s) data),
         injected := injected s @ [data],
         totalErrors := (if failed then totalErrors s + 1 else totalErrors s)\<rparr>"
  by (simp add: IsDuplicate_def)

lemma capture_twice:
  assumes "dedup_inv (dedup s)" "\<not> lru_Contains (cache (dedup s)) (hash data)"
  shows "relay_loop hash s [PacketChan data, PacketChan data]
     = s\<lparr>totalReceived := totalReceived s + 2,
         dedup := snd (IsDuplicate hash (dedup s) data),
         peers := map (\<lambda>(pid, p). (pid, trySend data p)) (peers s),
         totalForwarded := totalForwarded s + 1,
         totalDropped := totalDropped s + 1\<rparr>"
proof -
  let ?s1 = "relay_step hash s (PacketChan data)"
  have s1: "?s1 = s\<lparr>totalReceived := totalReceived s + 1,
         dedup := snd (IsDuplicate hash (dedup s) data),
         peers := map (\<lambda>(pid, p). (pid, trySend data p)) (peers s),
         totalForwarded := totalForwarded s + 1\<rparr>"
    using assms(2) by (rule relay_step_capture_new)
  have c: "lru_Contains (cache (dedup ?s1)) (hash data)"
    unfolding s1 using IsDuplicate_present_after[of "dedup s" hash data] assms(1)
    by (simp add: dedup_inv_def)
  have "relay_loop hash s [PacketChan data, PacketChan data]
          = relay_step hash ?s1 (PacketChan data)"
    by (simp del: relay_step.simps)
  also have "\<dots> = ?s1\<lparr>totalReceived := totalReceived ?s1 + 1,
                        totalDropped := totalDropped ?s1 + 1\<rparr>"
    using c by (rule relay_step_capture_dup[where hash = hash and data = data])
  also have "\<dots> = s\<lparr>totalReceived := totalReceived s + 2,
         dedup := snd (IsDuplicate hash (dedup s) data),
         peers := map (\<lambda>(pid, p). (pid, trySend data p)) (peers s),
         totalForwarded := totalForwarded s + 1,
         totalDropped := totalDropped s + 1\<rparr>"
    unfolding s1 by simp
  finally show ?thesis .
qed

lemma peer_twice:
  assumes "dedup_inv (dedup s)" "\<not> lru_Contains (cache (dedup s)) (hash data)"
  shows "relay_loop hash s [PeerRelayChan data fa, PeerRelayChan data fb]
     = s\<lparr>dedup := snd (IsDuplicate hash (dedup s) data),
         injected := injected s @ [data],
         totalErrors := (if fa then totalErrors s + 1 else totalErrors s)\<rparr>"
proof -
  let ?s1 = "relay_step hash s (PeerRelayChan data fa)"
  have s1: "?s1 = s\<lparr>dedup := snd (IsDuplicate hash (dedup s) data),
         injected := injected s @ [data],
         totalErrors := (if fa then totalErrors s + 1 else totalErrors s)\<rparr>"
    using assms(2) by (rule relay_step_peer_new)
  have c: "lru_Contains (cache (dedup ?s1)) (hash data)"
    unfolding s1 using IsDuplicate_present_after[of "dedup s" hash data] assms(1)
    by (simp add: dedup_inv_def)
  have "relay_loop hash s [PeerRelayChan data fa, PeerRelayChan data fb]
          = relay_step hash ?s1 (PeerRelayChan data fb)"
    by (simp del: relay_step.simps)
  also have "\<dots> = ?s1"
    using c by (rule relay_step_peer_dup[where hash = hash and data = data])
  finally show ?thesis unfolding s1 .
qed

lemma two_peers_eq:
  "(two_peers :: 'k Server) = new_server\<lparr>peers :=
      [(''10.0.0.2:40001'', NewPeer ''10.0.0.2:40001'' (tcp_conn ''10.0.0.2'' ''40001'') [] 0),
       (''10.0.0.3:40002'', NewPeer ''10.0.0.3:40002'' (tcp_conn ''10.0.0.3'' ''40002'') [] 0)]\<rparr>"
  by (simp add: two_peers_def handleNewConn_def new_server_def DefaultConfig_def tcp_conn_def
      localChildren_def GetStats_def NewPeer_def Let_def)

lemma trySend_room: "length (SendChan p) < 1000 \<Longrightarrow> trySend data p = p\<lparr>SendChan := SendChan p @ [data]\<rparr>"
  by (simp add: trySend_def)

lemma trySend_full: "1000 \<le> length (SendChan p) \<Longrightarrow> trySend data p = p"
  by (simp add: trySend_def)

text \<open>
  Claim C1, amended. Every frame from the capture channel increments \<open>totalReceived\<close>. When
  its fingerprint is in the store the step only increments \<open>totalDropped\<close> as well. Otherwise
  it increments \<open>totalForwarded\<close> and offers the frame once to every registered peer:
  \<open>trySend\<close> appends it to a \<open>SendChan\<close> that holds fewer than 1000 frames and leaves a full
  one as it is. Delivering a new frame twice to a well-formed store adds 2, 1 and 1 to the
  three counters and offers the frame to every peer once.
\<close>

theorem C1_capture_frame_fan_out:
  "totalReceived (relay_step hash s (PacketChan data)) = totalReceived s + 1 \<and>
   (lru_Contains (cache (dedup s)) (hash data) \<longrightarrow>
      relay_step hash s (PacketChan data)
        = s\<lparr>totalReceived := totalReceived s + 1, totalDropped := totalDropped s + 1\<rparr>) \<and>
   (\<not> lru_Contains (cache (dedup s)) (hash data) \<longrightarrow>
      totalForwarded (relay_step hash s (PacketChan data)) = totalForwarded s + 1 \<and>
      totalDropped (relay_step hash s (PacketChan data)) = totalDropped s \<and>
      peers (relay_step hash s (PacketChan data))
        = map (\<lambda>(pid, p). (pid, trySend data p)) (peers s)) \<and>
   (length (SendChan p) < 1000 \<longrightarrow> trySend data p = p\<lparr>SendChan := SendChan p @ [data]\<rparr>) \<and>
   (1000 \<le> length (SendChan p) \<longrightarrow> trySend data p = p) \<and>
   (dedup_inv (dedup s) \<and> \<not> lru_Contains (cache (dedup s)) (hash data) \<longrightarrow>
      totalReceived (relay_loop hash s [PacketChan data, PacketChan data]) = totalReceived s + 2 \<and>
      totalForwarded (relay_loop hash s [PacketChan data, PacketChan data]) = totalForwarded s + 1 \<and>
      totalDropped (relay_loop hash s [PacketChan data, PacketChan data]) = totalDropped s + 1 \<and>
      peers (relay_loop hash s [PacketChan data, PacketChan data])
        = map (\<lambda>(pid, p). (pid, trySend data p)) (peers s))"
proof (intro conjI impI)
  show "totalReceived (relay_step hash s (PacketChan data)) = totalReceived s + 1"
    by (cases "lru_Contains (cache (dedup s)) (hash data)")
      (simp_all add: relay_step_capture_dup relay_step_capture_new del: relay_step.simps)
next
  assume "lru_Contains (cache (dedup s)) (hash data)"
  then show "relay_step hash s (PacketChan data)
        = s\<lparr>totalReceived := totalReceived s + 1, totalDropped := totalDropped s + 1\<rparr>"
    by (rule relay_step_capture_dup)
next
  assume n: "\<not> lru_Contains (cache (dedup s)) (hash data)"
  show "totalForwarded (relay_step hash s (PacketChan data)) = totalForwarded s + 1"
    and "totalDropped (relay_step hash s (PacketChan data)) = totalDropped s"
    and "peers (relay_step hash s (PacketChan data))
        = map (\<lambda>(pid, p). (pid, trySend data p)) (peers s)"
    using n by (simp_all add: relay_step_capture_new[where hash = hash and data = data]
        del: relay_step.simps)
next
  assume "length (SendChan p) < 1000"
  then show "trySend data p = p\<lparr>SendChan := SendChan p @ [data]\<rparr>" by (rule trySend_room)
next
  assume "1000 \<le> length (SendChan p)"
  then show "trySend data p = p" by (rule trySend_full)
next
  assume a: "dedup_inv (dedup s) \<and> \<not> lru_Contains (cache (dedup s)) (hash data)"
  then have t: "relay_loop hash s [PacketChan data, PacketChan data]
     = s\<lparr>totalReceived := totalReceived s + 2,
         dedup := snd (IsDuplicate hash (dedup s) data),
         peers := map (\<lambda>(pid, p). (pid, trySend data p)) (peers s),
         totalForwarded := totalForwarded s + 1,
         totalDropped := totalDropped s + 1\<rparr>"
    using capture_twice[of s hash data] by simp
  show "totalReceived (relay_loop hash s [PacketChan data, PacketChan data]) = totalReceived s + 2"
    and "totalForwarded (relay_loop hash s [PacketChan data, PacketChan data]) = totalForwarded s + 1"
    and "totalDropped (relay_loop hash s [PacketChan data, PacketChan data]) = totalDropped s + 1"
    and "peers (relay_loop hash s [PacketChan data, PacketChan data])
        = map (\<lambda>(pid, p). (pid, trySend data p)) (peers s)"
    unfolding t by simp_all
qed

lemma two_peers_inv: "dedup_inv (dedup (two_peers :: frame Server))"
  by (simp add: two_peers_eq new_server_def dedup_inv_def)

theorem C1_capture_frame_fan_out_witness:
  "dedup_inv (dedup (two_peers :: frame Server)) \<and>
   \<not> lru_Contains (cache (dedup (two_peers :: frame Server))) (id [0x01, 0x02]) \<and>
   length (SendChan (NewPeer ''10.0.0.2:40001'' (tcp_conn ''10.0.0.2'' ''40001'') [] 0)) < 1000 \<and>
   totalReceived (relay_loop id two_peers [PacketChan [0x01, 0x02], PacketChan [0x01, 0x02]]) = 2 \<and>
   totalForwarded (relay_loop id two_peers [PacketChan [0x01, 0x02], PacketChan [0x01, 0x02]]) = 1 \<and>
   totalDropped (relay_loop id two_peers [PacketChan [0x01, 0x02], PacketChan [0x01, 0x02]]) = 1 \<and>
   map (\<lambda>(pid, p). (pid, SendChan p))
       (peers (relay_loop id two_peers [PacketChan [0x01, 0x02], PacketChan [0x01, 0x02]]))
     = [(''10.0.0.2:40001'', [[0x01, 0x02]]), (''10.0.0.3:40002'', [[0x01, 0x02]])] \<and>
   map (\<lambda>(pid, p). written (drain_SendChan p))
       (peers (relay_loop id two_peers [PacketChan [0x01, 0x02], PacketChan [0x01, 0x02]]))
     = [[0, 0, 0, 2, 0x01, 0x02], [0, 0, 0, 2, 0x01, 0x02]]"
proof -
  let ?L = "relay_loop id (two_peers :: frame Server) [PacketChan [0x01, 0x02], PacketChan [0x01, 0x02]]"
  note T = C1_capture_frame_fan_out
    [where hash = id and s = "two_peers :: frame Server" and data = "[0x01, 0x02]"
       and p = "NewPeer ''10.0.0.2:40001'' (tcp_conn ''10.0.0.2'' ''40001'') [] 0"]
  have inv: "dedup_inv (dedup (two_peers :: frame Server))"
    by (rule two_peers_inv)
  have fresh: "\<not> lru_Contains (cache (dedup (two_peers :: frame Server))) (id [0x01, 0x02])"
    by (simp add: two_peers_eq new_server_def lru_Contains_def)
  have c: "totalReceived ?L = totalReceived (two_peers :: frame Server) + 2"
    "totalForwarded ?L = totalForwarded (two_peers :: frame Server) + 1"
    "totalDropped ?L = totalDropped (two_peers :: frame Server) + 1"
    "peers ?L = map (\<lambda>(pid, p). (pid, trySend [0x01, 0x02] p)) (peers (two_peers :: frame Server))"
    using T inv fresh by blast+
  show ?thesis
    unfolding c using inv fresh
    by (simp add: two_peers_eq new_server_def trySend_def NewPeer_def
        drain_SendChan_def put_be32_def)
qed

text \<open>
  Claim C1 as stated, at the server whose only peer has a full \<open>SendChan\<close>: the frame is new
  and \<open>totalForwarded\<close> is incremented, but the frame is not put on the peer's queue.
\<close>

theorem C1_full_queue_counterexample:
  "\<not> lru_Contains (cache (dedup (full_queue_server :: frame Server))) (id [0x01, 0x02]) \<and>
   peers (full_queue_server :: frame Server) \<noteq> [] \<and>
   totalForwarded (relay_step id (full_queue_server :: frame Server) (PacketChan [0x01, 0x02]))
     = totalForwarded (full_queue_server :: frame Server) + 1 \<and>
   peers (relay_step id (full_queue_server :: frame Server) (PacketChan [0x01, 0x02]))
     = peers (full_queue_server :: frame Server) \<and>
   [0x01, 0x02] \<notin> set (SendChan (snd (hd (peers
       (relay_step id (full_queue_server :: frame Server) (PacketChan [0x01, 0x02]))))))"
  by (simp add: full_queue_server_def new_server_def lru_Contains_def IsDuplicate_def
      broadcastToPeers_def trySend_def NewPeer_def Let_def)

text \<open>
  Claim C2. A step for a frame from the peer channel never changes the registry, so it puts
  nothing on any peer's queue. When the frame's fingerprint is in the store the step changes
  nothing at all: no call of \<^verbatim>\<open>Inject\<close>. When it is not, \<^verbatim>\<open>Inject\<close> is called once with the frame.
  When the same new frame arrives twice in a row (peer A sends it, peer B echoes it) on a
  well-formed store, \<^verbatim>\<open>Inject\<close> is called exactly once.
\<close>

theorem C2_peer_frame_injected_once:
  "peers (relay_step hash s (PeerRelayChan data failed)) = peers s \<and>
   (lru_Contains (cache (dedup s)) (hash data) \<longrightarrow>
      relay_step hash s (PeerRelayChan data failed) = s) \<and>
   (\<not> lru_Contains (cache (dedup s)) (hash data) \<longrightarrow>
      injected (relay_step hash s (PeerRelayChan data failed)) = injected s @ [data]) \<and>
   (dedup_inv (dedup s) \<and> \<not> lru_Contains (cache (dedup s)) (hash data) \<longrightarrow>
      injected (relay_loop hash s [PeerRelayChan data fa, PeerRelayChan data fb])
        = injected s @ [data] \<and>
      peers (relay_loop hash s [PeerRelayChan data fa, PeerRelayChan data fb]) = peers s)"
proof (intro conjI impI)
  show "peers (relay_step hash s (PeerRelayChan data failed)) = peers s"
    by (cases "lru_Contains (cache (dedup s)) (hash data)")
      (simp_all add: relay_step_peer_dup relay_step_peer_new del: relay_step.simps)
next
  assume "lru_Contains (cache (dedup s)) (hash data)"
  then show "relay_step hash s (PeerRelayChan data failed) = s"
    by (rule relay_step_peer_dup)
next
  assume "\<not> lru_Contains (cache (dedup s)) (hash data)"
  then show "injected (relay_step hash s (PeerRelayChan data failed)) = injected s @ [data]"
    by (simp add: relay_step_peer_new del: relay_step.simps)
next
  assume a: "dedup_inv (dedup s) \<and> \<not> lru_Contains (cache (dedup s)) (hash data)"
  then have t: "relay_loop hash s [PeerRelayChan data fa, PeerRelayChan data fb]
     = s\<lparr>dedup := snd (IsDuplicate hash (dedup s) data),
         injected := injected s @ [data],
         totalErrors := (if fa then totalErrors s + 1 else totalErrors s)\<rparr>"
    using peer_twice[of s hash data fa fb] by simp
  show "injected (relay_loop hash s [PeerRelayChan data fa, PeerRelayChan data fb])
        = injected s @ [data]"
    and "peers (relay_loop hash s [PeerRelayChan data fa, PeerRelayChan data fb]) = peers s"
    unfolding t by simp_all
qed

theorem C2_peer_frame_injected_once_witness:
  "dedup_inv (dedup (two_peers :: frame Server)) \<and>
   \<not> lru_Contains (cache (dedup (two_peers :: frame Server))) (id [0xAA]) \<and>
   injected (relay_loop id (two_peers :: frame Server)
               [PeerRelayChan [0xAA] False, PeerRelayChan [0xAA] False]) = [[0xAA]] \<and>
   peers (relay_loop id (two_peers :: frame Server)
               [PeerRelayChan [0xAA] False, PeerRelayChan [0xAA] False]) = peers two_peers \<and>
   lru_Contains (cache (dedup (relay_step id (two_peers :: frame Server)
                                  (PeerRelayChan [0xAA] False)))) (id [0xAA]) \<and>
   relay_step id (relay_step id (two_peers :: frame Server) (PeerRelayChan [0xAA] False))
       (PeerRelayChan [0xAA] False)
     = relay_step id (two_peers :: frame Server) (PeerRelayChan [0xAA] False)"
proof -
  let ?T = "two_peers :: frame Server"
  let ?L = "relay_loop id ?T [PeerRelayChan [0xAA] False, PeerRelayChan [0xAA] False]"
  let ?S = "relay_step id ?T (PeerRelayChan [0xAA] False)"
  note T = C2_peer_frame_injected_once
    [where hash = id and s = ?T and data = "[0xAA]" and fa = False and fb = False]
  note U = C2_peer_frame_injected_once
    [where hash = id and s = ?S and data = "[0xAA]" and failed = False]
  have inv: "dedup_inv (dedup ?T)"
    by (simp add: two_peers_eq new_server_def dedup_inv_def)
  have fresh: "\<not> lru_Contains (cache (dedup ?T)) (id [0xAA])"
    by (simp add: two_peers_eq new_server_def lru_Contains_def)
  have c: "injected ?L = injected ?T @ [[0xAA]]" "peers ?L = peers ?T"
    using T inv fresh by blast+
  have present: "lru_Contains (cache (dedup ?S)) (id [0xAA])"
    by (simp add: two_peers_eq new_server_def lru_Contains_def IsDuplicate_def lru_Add_def Let_def)
  with U have again: "relay_step id ?S (PeerRelayChan [0xAA] False) = ?S" by blast
  show ?thesis
    unfolding c again using inv fresh present
    by (simp add: two_peers_eq new_server_def del: relay_step.simps)
qed

text \<open>
  The counters in the relay loop, read as numbers: below the wrap-around of the 64-bit
  counters, a step adds 0 or 1 to each and keeps forwarded + dropped within received.
\<close>

lemma relay_step_unat:
  assumes "unat (totalForwarded s) + unat (totalDropped s) \<le> unat (totalReceived s)"
    and "unat (totalReceived s) < 2 ^ 64 - 1" and "unat (totalErrors s) < 2 ^ 64 - 1"
  shows "unat (totalForwarded (relay_step hash s ev)) + unat (totalDropped (relay_step hash s ev))
           \<le> unat (totalReceived (relay_step hash s ev))
       \<and> unat (totalReceived s) \<le> unat (totalReceived (relay_step hash s ev))
       \<and> unat (totalReceived (relay_step hash s ev)) \<le> unat (totalReceived s) + 1
       \<and> unat (totalForwarded s) \<le> unat (totalForwarded (relay_step hash s ev))
       \<and> unat (totalDropped s) \<le> unat (totalDropped (relay_step hash s ev))
       \<and> unat (totalErrors s) \<le> unat (totalErrors (relay_step hash s ev))
       \<and> unat (totalErrors (relay_step hash s ev)) \<le> unat (totalErrors s) + 1"
proof -
  have inc: "unat (x + 1) = unat x + 1" if "unat x < 2 ^ 64 - 1" for x :: u64
    using that by (simp add: unat_word_ariths)
  from assms have f: "unat (totalForwarded s) < 2 ^ 64 - 1" and d: "unat (totalDropped s) < 2 ^ 64 - 1"
    by linarith+
  show ?thesis
  proof (cases ev)
    case (PacketChan data)
    show ?thesis
    proof (cases "lru_Contains (cache (dedup s)) (hash data)")
      case True
      from relay_step_capture_dup[where hash = hash and data = data, OF True] assms inc[OF assms(2)] inc[OF d] PacketChan
      show ?thesis by (simp del: relay_step.simps)
    next
      case False
      from relay_step_capture_new[where hash = hash and data = data, OF False] assms inc[OF assms(2)] inc[OF f] PacketChan
      show ?thesis by (simp del: relay_step.simps)
    qed
  next
    case (PeerRelayChan data failed)
    show ?thesis
    proof (cases "lru_Contains (cache (dedup s)) (hash data)")
      case True
      from relay_step_peer_dup[where hash = hash and data = data and failed = failed, OF True] assms PeerRelayChan
      show ?thesis by (simp del: relay_step.simps)
    next
      case False
      from relay_step_peer_new[where hash = hash and data = data and failed = failed, OF False] assms inc[OF assms(3)] PeerRelayChan
      show ?thesis by (simp del: relay_step.simps)
    qed
  qed
qed

lemma relay_loop_unat:
  assumes "unat (totalForwarded s) + unat (totalDropped s) \<le> unat (totalReceived s)"
    and "unat (totalReceived s) + length evs < 2 ^ 64"
    and "unat (totalErrors s) + length evs < 2 ^ 64"
  shows "unat (totalForwarded (relay_loop hash s evs)) + unat (totalDropped (relay_loop hash s evs))
           \<le> unat (totalReceived (relay_loop hash s evs))
       \<and> unat (totalReceived s) \<le> unat (totalReceived (relay_loop hash s evs))
       \<and> unat (totalForwarded s) \<le> unat (totalForwarded (relay_loop hash s evs))
       \<and> unat (totalDropped s) \<le> unat (totalDropped (relay_loop hash s evs))
       \<and> unat (totalErrors s) \<le> unat (totalErrors (relay_loop hash s evs))"
  using assms
proof (induction evs arbitrary: s)
  case Nil
  then show ?case by simp
next
  case (Cons ev evs)
  have r: "unat (totalReceived s) < 2 ^ 64 - 1" and e: "unat (totalErrors s) < 2 ^ 64 - 1"
    using Cons.prems(2,3) by simp_all
  note st = relay_step_unat[OF Cons.prems(1) r e, of hash ev]
  have "unat (totalReceived (relay_step hash s ev)) + length evs < 2 ^ 64"
    and "unat (totalErrors (relay_step hash s ev)) + length evs < 2 ^ 64"
    using st Cons.prems(2,3) by simp_all
  from Cons.IH[OF _ this] st show ?case
    by (simp del: relay_step.simps)
qed

text \<open>
  Claim C6, at a tick of demo mode after \<^verbatim>\<open>UpdateDemoProps(10, 20, 10, 5)\<close> (a drop rate
  above the packet rate, as \<^verbatim>\<open>POST /api/demo\<close> and the demo settings form accept it). The
  tick adds \<^verbatim>\<open>uint64(10 - 20 + 2)\<close>, that is \<open>2 ^ 64 - 8\<close>, to \<open>totalForwarded\<close>: after it
  forwarded + dropped exceeds received, and the next tick makes \<open>totalForwarded\<close> smaller.
  In the relay loop itself the claim holds below the wrap-around of the counters
  (\<open>relay_loop_unat\<close>).
\<close>

theorem C6_demo_tick_breaks_the_counters:
  "case runDemo_counters (UpdateDemoProps (new_server :: 'k Server) 10 20 10 5)
          1700000000 1700000000 1700000000 1700000000 of
     Inl err \<Rightarrow> False
   | Inr s1 \<Rightarrow>
       unat (totalReceived s1) = 12 \<and>
       unat (totalForwarded s1) = 18446744073709551608 \<and>
       unat (totalDropped s1) = 20 \<and>
       unat (totalReceived s1) < unat (totalForwarded s1) + unat (totalDropped s1) \<and>
       (case runDemo_counters s1 1700000001 1700000001 1700000001 1700000001 of
          Inl err \<Rightarrow> False
        | Inr s2 \<Rightarrow>
            unat (totalForwarded s2) = 18446744073709551601 \<and>
            unat (totalForwarded s2) < unat (totalForwarded s1))"
  by (simp add: runDemo_counters_def UpdateDemoProps_def new_server_def go_div_def go_rem_def
      Let_def)

section \<open>Admission: results\<close>

lemma handleNewConn_admitted_not_banned:
  "fst (handleNewConn s conn now) = Admitted \<Longrightarrow>
   RemoteAddr conn \<notin> set (BannedIDs (cfg s)) \<and> RemoteHost conn \<notin> set (BannedHosts (cfg s))"
  by (auto simp: handleNewConn_def Let_def split: if_splits)

lemma handleNewConn_banned:
  "RemoteAddr conn \<in> set (BannedIDs (cfg s)) \<or> RemoteHost conn \<in> set (BannedHosts (cfg s)) \<Longrightarrow>
   fst (handleNewConn s conn now) \<noteq> Admitted \<and> snd (handleNewConn s conn now) = s"
  by (auto simp: handleNewConn_def Let_def)

lemma filter_update_not:
  "\<not> P (k, v) \<Longrightarrow> length (filter P (AList.update k v xs)) \<le> length (filter P xs)"
  by (induction xs) auto

lemma localChildren_update_NewPeer:
  "localChildren (s\<lparr>peers := AList.update pid (NewPeer pid conn key now) (peers s)\<rparr>)
     \<le> localChildren s"
  using filter_update_not[where P = "\<lambda>(pid, p). PeerStat_ParentID (GetStats p) = ''Local''"
      and k = pid and v = "NewPeer pid conn key now" and xs = "peers s"]
  by (simp add: localChildren_def GetStats_def NewPeer_def)

text \<open>
  \<^verbatim>\<open>NewPeer\<close> leaves \<open>parentID\<close> empty, so a peer admitted by \<open>handleNewConn\<close> is never
  counted among the local children, and with no local child counted every connection that is
  not banned is admitted.
\<close>

lemma handleNewConn_localChildren:
  "localChildren (snd (handleNewConn s conn now)) \<le> localChildren s"
  using localChildren_update_NewPeer[where s = s and pid = "RemoteAddr conn" and conn = conn
      and key = "NetworkKey (cfg s)" and now = now]
  by (auto simp: handleNewConn_def Let_def)

lemma handleNewConn_no_limit:
  assumes "localChildren s = 0" "0 < MaxChildren (cfg s)"
    "RemoteAddr conn \<notin> set (BannedIDs (cfg s))" "RemoteHost conn \<notin> set (BannedHosts (cfg s))"
  shows "fst (handleNewConn s conn now) = Admitted"
  using assms by (simp add: handleNewConn_def Let_def)

text \<open>
  Claim C5, at \<^verbatim>\<open>max_children = 2\<close> and three connections from three hosts, none of them
  ending before the next arrives (three outbound dialers, say): all three are admitted, the
  registry holds three peers, and the count of local children that the limit is compared with
  is still 0. The part of the claim about bans holds: a connection whose id or host is banned
  is rejected and leaves the server as it was (\<open>handleNewConn_banned\<close>,
  \<open>handleNewConn_admitted_not_banned\<close>).
\<close>

theorem C5_third_connection_is_admitted:
  "fst (handleNewConns ((new_server :: 'k Server)\<lparr>cfg := DefaultConfig\<lparr>MaxChildren := 2\<rparr>\<rparr>)
          [(tcp_conn ''10.0.0.2'' ''40001'', 0), (tcp_conn ''10.0.0.3'' ''40002'', 0),
           (tcp_conn ''10.0.0.4'' ''40003'', 0)])
     = [Admitted, Admitted, Admitted] \<and>
   map fst (peers (snd (handleNewConns
          ((new_server :: 'k Server)\<lparr>cfg := DefaultConfig\<lparr>MaxChildren := 2\<rparr>\<rparr>)
          [(tcp_conn ''10.0.0.2'' ''40001'', 0), (tcp_conn ''10.0.0.3'' ''40002'', 0),
           (tcp_conn ''10.0.0.4'' ''40003'', 0)])))
     = [''10.0.0.2:40001'', ''10.0.0.3:40002'', ''10.0.0.4:40003''] \<and>
   localChildren (snd (handleNewConns
          ((new_server :: 'k Server)\<lparr>cfg := DefaultConfig\<lparr>MaxChildren := 2\<rparr>\<rparr>)
          [(tcp_conn ''10.0.0.2'' ''40001'', 0), (tcp_conn ''10.0.0.3'' ''40002'', 0),
           (tcp_conn ''10.0.0.4'' ''40003'', 0)])) = 0"
  by (simp add: handleNewConn_def new_server_def DefaultConfig_def tcp_conn_def
      localChildren_def GetStats_def NewPeer_def Let_def)

section \<open>The receive stream: results\<close>

lemma get_be32_3000: "get_be32 [0x00, 0x00, 0x0B, 0xB8] = 3000"
  by (simp add: get_be32_def)

text \<open>
  Claim C7, at a stream that starts with the length prefix 3000 (bytes 00 00 0B B8). The
  receiver returns at once, without reading the frame bytes and without publishing anything,
  and leaves the peer exactly as it was: the two receive counters are not updated, and neither
  is \<open>errors\<close>. A length prefix that cannot be read in full, the neighbouring error path, does
  increment \<open>errors\<close>. The receiver works on its own peer only, so the other peers stay
  registered and unchanged (\<open>Run_receiver_others\<close>, \<open>Run_receiver_keys\<close>).
\<close>

theorem C7_oversized_length_counts_no_error:
  "receiver now p (0x00 # 0x00 # 0x0B # 0xB8 # rest) fin = (TooLarge 3000, p, []) \<and>
   errors (fst (snd (receiver now p (0x00 # 0x00 # 0x0B # 0xB8 # rest) fin))) = errors p \<and>
   receiver now p [0x00, 0x00, 0x0B] fin = (LengthError, p\<lparr>errors := errors p + 1\<rparr>, [])"
proof -
  have a: "receiver now p (0x00 # 0x00 # 0x0B # 0xB8 # rest) fin = (TooLarge 3000, p, [])"
    by (subst receiver.simps) (simp add: get_be32_3000)
  have b: "receiver now p [0x00, 0x00, 0x0B] fin = (LengthError, p\<lparr>errors := errors p + 1\<rparr>, [])"
    by (subst receiver.simps) simp
  from a b show ?thesis by simp
qed

lemma Run_receiver_others:
  assumes "Run_receiver s pid now inp fin = Some (ex, s', published)" "other \<noteq> pid"
  shows "map_of (peers s') other = map_of (peers s) other"
  using assms
  by (auto simp: Run_receiver_def update_conv' split: option.splits prod.splits)

lemma Run_receiver_keys:
  assumes "Run_receiver s pid now inp fin = Some (ex, s', published)"
  shows "map fst (peers s') = map fst (peers s)"
  using assms
  by (force simp: Run_receiver_def update_keys image_iff dest: map_of_SomeD
      split: option.splits prod.splits)

section \<open>Adding a peer: results\<close>

text \<open>
  Claim C9, at the bracketed IPv6 literal without a port: \<^verbatim>\<open>JoinHostPort\<close> is handed the literal
  with its brackets, finds a colon in it and brackets it again. The bare IPv4 host gets the
  default port as the claim says, an address that is already configured leaves the server
  unchanged (\<open>AddPeer_known\<close>), and the slice never panics (\<open>default_port_no_panic\<close>).
\<close>

theorem C9_bracketed_ipv6_is_bracketed_twice:
  "default_port ''[2001:db8::1]'' = Inr ''[[2001:db8::1]]:8787'' \<and>
   default_port ''10.0.0.1'' = Inr ''10.0.0.1:8787'' \<and>
   Peers (cfg (projr (AddPeer (new_server :: 'k Server) ''[2001:db8::1]''))) = [''[[2001:db8::1]]:8787'']"
  by (simp add: AddPeer_def default_port_def JoinHostPort_def HasSuffix_colon_def LastIndex_def
      slice_from_def new_server_def DefaultConfig_def Let_def)

lemma AddPeer_known:
  "default_port addr0 = Inr addr \<Longrightarrow> addr \<in> set (Peers (cfg s)) \<Longrightarrow> AddPeer s addr0 = Inr s"
  by (simp add: AddPeer_def)

lemma AddPeer_new:
  "default_port addr0 = Inr addr \<Longrightarrow> addr \<notin> set (Peers (cfg s)) \<Longrightarrow>
   \<exists>s'. AddPeer s addr0 = Inr s' \<and> Peers (cfg s') = Peers (cfg s) @ [addr]"
  by (simp add: AddPeer_def Let_def)

lemma LastIndex_from_bounds:
  "found < i \<Longrightarrow>
   found \<le> LastIndex_from c xs i found \<and> LastIndex_from c xs i found < i + int (length xs)
   \<and> (c \<in> set xs \<longrightarrow> i \<le> LastIndex_from c xs i found)"
proof (induction xs arbitrary: i found)
  case Nil then show ?case by simp
next
  case (Cons x xs)
  show ?case
  proof (cases "x = c")
    case True
    with Cons.IH[of i "i + 1"] Cons.prems show ?thesis by auto
  next
    case False
    with Cons.IH[of found "i + 1"] Cons.prems show ?thesis by auto
  qed
qed

lemma default_port_no_panic: "\<exists>addr. default_port addr0 = Inr addr"
proof (cases "CHR '']'' \<in> set addr0")
  case False
  then show ?thesis by (simp add: default_port_def)
next
  case True
  from LastIndex_from_bounds[of "- 1" 0 "CHR '']''" addr0] True
  have "0 \<le> LastIndex addr0 CHR '']''" "LastIndex addr0 CHR '']'' \<le> int (length addr0)"
    by (simp_all add: LastIndex_def)
  with True show ?thesis by (simp add: default_port_def slice_from_def)
qed

end
